theory Spec2Isabelle
  imports Main "HOL-Library.AList" "HOL-Library.Sublist"
begin

section \<open>Values, objects and the JSON file\<close>

text \<open>
  The store of \<^verbatim>\<open>src/index.js\<close> (class \<^verbatim>\<open>Userbase\<close>) keeps JavaScript objects in an
  array and mirrors the array to a JSON file.

  A JavaScript string is modelled by a \<^typ>\<open>string\<close>: one \<^typ>\<open>char\<close> per UTF-16 code
  unit, for the code units below 256, so that \<^verbatim>\<open>value.length\<close> is \<^const>\<open>length\<close>.
  A field value is \<^verbatim>\<open>undefined\<close>, \<^verbatim>\<open>null\<close>, a boolean or a string, on which
  \<^verbatim>\<open>===\<close> is equality. Numbers (floating point, with \<^verbatim>\<open>NaN !== NaN\<close>) and object
  references as field values are outside the model.
\<close>

datatype jsval = JUndefined | JNull | JBool bool | JStr string

text \<open>
  An object is the list of its own properties in the order \<^verbatim>\<open>Object.keys\<close> lists
  them. Reading a property that is not there gives \<^verbatim>\<open>undefined\<close>; assigning a property
  overwrites it in place or appends it. Property names that \<^verbatim>\<open>Object.prototype\<close>
  defines (\<^verbatim>\<open>constructor\<close>, \<^verbatim>\<open>__proto__\<close>, ...) are outside the model.
\<close>

type_synonym 'v jsobj = "(string \<times> 'v) list"
type_synonym jsobject = "jsval jsobj"

definition keys :: "'v jsobj \<Rightarrow> string list" where
  "keys obj = map fst obj"

definition getprop :: "jsobject \<Rightarrow> string \<Rightarrow> jsval" where
  "getprop obj key = (case map_of obj key of None \<Rightarrow> JUndefined | Some v \<Rightarrow> v)"

definition assign :: "string \<Rightarrow> jsval \<Rightarrow> jsobject \<Rightarrow> jsobject" where
  "assign key v obj = AList.update key v obj"

text \<open>
  The root file. \<^verbatim>\<open>JSON.stringify\<close> and \<^verbatim>\<open>JSON.parse\<close> are the runtime's: the text of
  the file is represented by the document it denotes, an array of objects with JSON
  values. \<^verbatim>\<open>JSON.stringify\<close> leaves out a property whose value is \<^verbatim>\<open>undefined\<close>.
\<close>

datatype jsonval = JsonNull | JsonBool bool | JsonString string

type_synonym json_document = "jsonval jsobj list"

datatype file_content = Missing | Malformed | Doc json_document

fun to_json :: "jsval \<Rightarrow> jsonval option" where
  "to_json JUndefined = None"
| "to_json JNull = Some JsonNull"
| "to_json (JBool b) = Some (JsonBool b)"
| "to_json (JStr s) = Some (JsonString s)"

fun of_json :: "jsonval \<Rightarrow> jsval" where
  "of_json JsonNull = JNull"
| "of_json (JsonBool b) = JBool b"
| "of_json (JsonString s) = JStr s"

definition stringify_object :: "jsobject \<Rightarrow> jsonval jsobj" where
  "stringify_object obj =
     List.map_filter (\<lambda>(k, v). map_option (Pair k) (to_json v)) obj"

definition stringify :: "jsobject list \<Rightarrow> json_document" where
  "stringify objs = map stringify_object objs"

definition parse_object :: "jsonval jsobj \<Rightarrow> jsobject" where
  "parse_object obj = map (\<lambda>(k, v). (k, of_json v)) obj"

definition parse :: "json_document \<Rightarrow> jsobject list" where
  "parse d = map parse_object d"

section \<open>The rule validator\<close>

text \<open>
  A rule set. A key that is absent is \<^const>\<open>None\<close>; the lengths are integers, the
  pattern of \<^verbatim>\<open>match\<close> is a string, the other four rules are booleans.
\<close>

record ruleset =
  minLength :: "int option"
  maxLength :: "int option"
  match :: "string option"
  noSpaces :: "bool option"
  noSpecialCharacters :: "bool option"
  noNumbers :: "bool option"
  noLetters :: "bool option"

text \<open>The result objects \<^verbatim>\<open>{success: true}\<close> and \<^verbatim>\<open>{success: false, message}\<close>.\<close>

datatype 'a result = Success 'a | Failure string

definition fail :: "string \<Rightarrow> 'a result" where
  "fail message = Failure message"

text \<open>JavaScript's truthiness of a number, a string and a boolean that may be absent.\<close>

fun truthy_num :: "int option \<Rightarrow> bool" where
  "truthy_num None = False"
| "truthy_num (Some n) = (n \<noteq> 0)"

fun truthy_str :: "string option \<Rightarrow> bool" where
  "truthy_str None = False"
| "truthy_str (Some s) = (s \<noteq> [])"

fun truthy_bool :: "bool option \<Rightarrow> bool" where
  "truthy_bool None = False"
| "truthy_bool (Some b) = b"

text \<open>
  \<^verbatim>\<open>value.length < n\<close> and \<^verbatim>\<open>value.length > n\<close>; a comparison with \<^verbatim>\<open>undefined\<close> is false.
\<close>

fun length_lt :: "string \<Rightarrow> int option \<Rightarrow> bool" where
  "length_lt v None = False"
| "length_lt v (Some n) = (int (length v) < n)"

fun length_gt :: "string \<Rightarrow> int option \<Rightarrow> bool" where
  "length_gt v None = False"
| "length_gt v (Some n) = (int (length v) > n)"

text \<open>
  The decimal text that string concatenation gives an integer (below \<open>10\<^sup>2\<^sup>1\<close> in
  absolute value, where the text has no exponent).
\<close>

definition digit :: "nat \<Rightarrow> char" where
  "digit d = ''0123456789'' ! d"

fun show_nat :: "nat \<Rightarrow> string" where
  "show_nat n = (if n < 10 then [digit n] else show_nat (n div 10) @ [digit (n mod 10)])"

declare show_nat.simps [simp del]

definition show_int :: "int \<Rightarrow> string" where
  "show_int i = (if i < 0 then CHR ''-'' # show_nat (nat (- i)) else show_nat (nat i))"

definition num_text :: "int option \<Rightarrow> string" where
  "num_text n = (case n of None \<Rightarrow> ''undefined'' | Some i \<Rightarrow> show_int i)"

definition str_text :: "string option \<Rightarrow> string" where
  "str_text s = (case s of None \<Rightarrow> ''undefined'' | Some t \<Rightarrow> t)"

text \<open>The character classes of the four fixed patterns, on code units below 256.\<close>

definition is_space :: "char \<Rightarrow> bool" where
  "is_space c = (let n = (of_char c :: nat) in (9 \<le> n \<and> n \<le> 13) \<or> n = 32 \<or> n = 160)"

definition is_digit :: "char \<Rightarrow> bool" where
  "is_digit c = (let n = (of_char c :: nat) in 48 \<le> n \<and> n \<le> 57)"

definition is_letter :: "char \<Rightarrow> bool" where
  "is_letter c = (let n = (of_char c :: nat) in (65 \<le> n \<and> n \<le> 90) \<or> (97 \<le> n \<and> n \<le> 122))"

definition is_special :: "char \<Rightarrow> bool" where
  "is_special c = (\<not> is_letter c \<and> \<not> is_digit c)"

text \<open>
  \<^verbatim>\<open>value.match(p)\<close> for one of the fixed patterns, each a single character class: the
  search finds a match when some character of the value is in the class.
\<close>

definition has_char :: "(char \<Rightarrow> bool) \<Rightarrow> string \<Rightarrow> bool" where
  "has_char cls v = list_ex cls v"

text \<open>
  The regular-expression engine behind \<^verbatim>\<open>value.match(rules.match)\<close> is the runtime's:
  \<open>rx p v\<close> stands for "the search for the pattern \<open>p\<close> finds a match in \<open>v\<close>". An absent
  pattern is the empty pattern, which every value matches.
\<close>

type_synonym regex_engine = "string \<Rightarrow> string \<Rightarrow> bool"

fun value_match :: "regex_engine \<Rightarrow> string \<Rightarrow> string option \<Rightarrow> bool" where
  "value_match rx v None = True"
| "value_match rx v (Some p) = rx p v"

text \<open>\<^verbatim>\<open>checkRules(value, rules)\<close>, lines 188 to 213.\<close>

definition checkRules :: "regex_engine \<Rightarrow> string \<Rightarrow> ruleset \<Rightarrow> unit result" where
  "checkRules rx v rules =
    (if truthy_num (minLength rules) \<and> length_lt v (minLength rules)
       then fail (''Value must be at least '' @ num_text (minLength rules) @ '' characters long!'')
     else if truthy_num (maxLength rules) \<and> length_gt v (maxLength rules)
       then fail (''Value must be at most '' @ num_text (maxLength rules) @ '' characters long!'')
     else if truthy_str (match rules) \<and> \<not> value_match rx v (match rules)
       then fail (''Value must match the following regex: '' @ str_text (match rules))
     else if truthy_bool (noSpaces rules) \<and> has_char is_space v
       then fail ''Value must not contain any spaces!''
     else if truthy_bool (noSpecialCharacters rules) \<and> has_char is_special v
       then fail ''Value must not contain any special characters!''
     else if truthy_bool (noNumbers rules) \<and> has_char is_digit v
       then fail ''Value must not contain any numbers!''
     else if truthy_bool (noLetters rules) \<and> has_char is_letter v
       then fail ''Value must not contain any letters!''
     else Success ())"



section \<open>The record store\<close>

text \<open>
  The records are objects on the heap; the array \<^verbatim>\<open>this.data\<close> holds their references,
  so that \<^verbatim>\<open>indexOf\<close> compares identities and an assignment to a record that
  \<^verbatim>\<open>get\<close> returned is seen through \<^verbatim>\<open>this.data\<close>.
\<close>

type_synonym addr = nat

record userbase =
  rootFile :: string
  heap :: "addr \<Rightarrow> jsobject"
  data :: "addr list"
  disk :: file_content

text \<open>
  The errors thrown: \<^verbatim>\<open>No root file specified!\<close>, \<^verbatim>\<open>Invalid JSON stored in root file!\<close>
  with the path, \<^verbatim>\<open>No input specified!\<close>, \<^verbatim>\<open>No find input specified!\<close> and
  \<^verbatim>\<open>No modify input specified!\<close>.
\<close>

datatype error = NoRootFile | InvalidJSON string | NoInput | NoFindInput | NoModifyInput

text \<open>The records in the order of \<^verbatim>\<open>this.data\<close>, by value.\<close>

definition contents :: "userbase \<Rightarrow> jsobject list" where
  "contents ub = map (heap ub) (data ub)"

text \<open>\<^verbatim>\<open>save()\<close>, lines 145 to 147.\<close>

definition save :: "userbase \<Rightarrow> userbase" where
  "save ub = ub\<lparr>disk := Doc (stringify (contents ub))\<rparr>"

text \<open>
  The constructor, lines 10 to 21. The second argument is what the file system holds
  at the path. The objects that \<^verbatim>\<open>JSON.parse\<close> creates get the addresses \<open>0\<close>, \<open>1\<close>, ...
  A file whose JSON is not an array of objects is outside the model.
\<close>

definition alloc :: "jsobject list \<Rightarrow> addr \<Rightarrow> jsobject" where
  "alloc objs = (\<lambda>a. if a < length objs then objs ! a else [])"

definition Userbase :: "string option \<Rightarrow> file_content \<Rightarrow> error + userbase" where
  "Userbase root content =
    (if \<not> truthy_str root then Inl NoRootFile
     else
       let content1 = (if content = Missing then Doc [] else content) in
       case content1 of
         Doc d \<Rightarrow>
           Inr \<lparr>rootFile = str_text root, heap = alloc (parse d),
                data = [0..<length d], disk = content1\<rparr>
       | _ \<Rightarrow> Inl (InvalidJSON (str_text root)))"

text \<open>\<^verbatim>\<open>get(input)\<close>, lines 28 to 40. An absent (falsy) argument is \<^const>\<open>None\<close>.\<close>

definition found :: "jsobject \<Rightarrow> jsobject \<Rightarrow> bool" where
  "found user input =
     fold (\<lambda>key fnd. if getprop user key \<noteq> getprop input key then False else fnd)
       (keys input) True"

definition get :: "userbase \<Rightarrow> jsobject option \<Rightarrow> addr list" where
  "get ub input =
    (case input of
       None \<Rightarrow> data ub
     | Some inp \<Rightarrow> filter (\<lambda>user. found (heap ub user) inp) (data ub))"

text \<open>
  A field descriptor of \<^verbatim>\<open>add\<close>: \<^verbatim>\<open>{value, noDuplicate, rules}\<close>, the value (the field
  \<open>val\<close>) a string.
\<close>

record descriptor =
  val :: string
  noDuplicate :: "bool option"
  rules :: "ruleset option"

text \<open>
  The body of the \<^verbatim>\<open>forEach\<close> of \<^verbatim>\<open>add\<close>, lines 86 to 108, for the property \<open>key\<close> of
  the input with descriptor \<open>d\<close>, on the local variables \<^verbatim>\<open>user\<close> and \<^verbatim>\<open>failed\<close>. A
  \<^verbatim>\<open>return\<close> leaves the callback, and \<^verbatim>\<open>forEach\<close> goes on with the next key.
\<close>

fun add_key ::
  "regex_engine \<Rightarrow> userbase \<Rightarrow> string \<times> descriptor \<Rightarrow> jsobject \<times> string option
     \<Rightarrow> jsobject \<times> string option" where
  "add_key rx ub (key, d) (user, failed) =
    (let tryCheck = (case rules d of None \<Rightarrow> Success () | Some r \<Rightarrow> checkRules rx (val d) r) in
     (case tryCheck of
        Failure message \<Rightarrow> (user, Some message)
      | Success u \<Rightarrow>
          if truthy_bool (noDuplicate d) \<and> length (get ub (Some [(key, JStr (val d))])) > 0
          then (user, Some (''A user with this '' @ key @ '' already exists!''))
          else (assign key (JStr (val d)) user, failed)))"

declare add_key.simps [simp del]

text \<open>An address that no record of the store has, for the object \<^verbatim>\<open>add\<close> creates.\<close>

fun fresh :: "addr list \<Rightarrow> addr" where
  "fresh [] = 0"
| "fresh (a # as) = max (Suc a) (fresh as)"

text \<open>
  \<^verbatim>\<open>add(input)\<close>, lines 64 to 121. \<open>token\<close> and \<open>uid\<close> are the strings that
  \<^verbatim>\<open>generateToken()\<close> and \<^verbatim>\<open>generateID()\<close> return in this call. The result is the
  thrown error, or the failure, or the reference of the record that was added.
\<close>

definition add ::
  "regex_engine \<Rightarrow> userbase \<Rightarrow> descriptor jsobj option \<Rightarrow> string \<Rightarrow> string
     \<Rightarrow> (error + addr result) \<times> userbase" where
  "add rx ub input token uid =
    (case input of
       None \<Rightarrow> (Inl NoInput, ub)
     | Some inp \<Rightarrow>
         (case fold (add_key rx ub) inp ([], None) of (user, failed) \<Rightarrow>
           if truthy_str failed then (Inr (fail (str_text failed)), ub)
           else
             let user1 = assign ''token'' (JStr token) user;
                 user2 = assign ''id'' (JStr uid) user1;
                 a = fresh (data ub);
                 ub1 = ub\<lparr>heap := fun_upd (heap ub) a user2, data := data ub @ [a]\<rparr>
             in (Inr (Success a), save ub1)))"

text \<open>
  \<^verbatim>\<open>Array.prototype.indexOf\<close> (the first index, or \<open>-1\<close>) and
  \<^verbatim>\<open>Array.prototype.splice(start, deleteCount)\<close> (a negative start counts from the end).
\<close>

fun indexOf :: "'a list \<Rightarrow> 'a \<Rightarrow> int" where
  "indexOf [] x = - 1"
| "indexOf (y # ys) x =
     (if y = x then 0 else let i = indexOf ys x in if i < 0 then - 1 else i + 1)"

definition array_splice :: "'a list \<Rightarrow> int \<Rightarrow> nat \<Rightarrow> 'a list" where
  "array_splice xs start deleteCount =
    (let n = int (length xs);
         s = nat (if start < 0 then max (n + start) 0 else min start n)
     in take s xs @ drop (s + deleteCount) xs)"

text \<open>\<^verbatim>\<open>remove(input)\<close>, lines 128 to 140.\<close>

definition remove_users :: "userbase \<Rightarrow> jsobject option \<Rightarrow> (error + bool) \<times> userbase" where
  "remove_users ub input =
    (case input of
       None \<Rightarrow> (Inl NoInput, ub)
     | Some inp \<Rightarrow>
         let users = get ub (Some inp) in
         if length users = 0 then (Inr False, ub)
         else
           let ub1 = fold (\<lambda>user u. u\<lparr>data := array_splice (data u) (indexOf (data u) user) 1\<rparr>)
                       users ub
           in (Inr True, save ub1))"

text \<open>\<^verbatim>\<open>modify(find, modify)\<close>, lines 163 to 178.\<close>

definition patch_user :: "jsobject \<Rightarrow> jsobject \<Rightarrow> jsobject" where
  "patch_user patch user = fold (\<lambda>key u. assign key (getprop patch key) u) (keys patch) user"

definition modify ::
  "userbase \<Rightarrow> jsobject option \<Rightarrow> jsobject option \<Rightarrow> (error + bool) \<times> userbase" where
  "modify ub fnd patch =
    (case fnd of
       None \<Rightarrow> (Inl NoFindInput, ub)
     | Some f \<Rightarrow>
         (case patch of
           None \<Rightarrow> (Inl NoModifyInput, ub)
         | Some p \<Rightarrow>
             let users = get ub (Some f) in
             if length users = 0 then (Inr False, ub)
             else
               let ub1 = fold (\<lambda>user u. u\<lparr>heap := fun_upd (heap u) user (patch_user p (heap u user))\<rparr>)
                           users ub
               in (Inr True, save ub1)))"

section \<open>The outcomes that the properties speak of\<close>

fun is_failure :: "'a result \<Rightarrow> bool" where
  "is_failure (Failure message) = True"
| "is_failure (Success x) = False"

text \<open>A rule check of the field fails: the field has rules and \<^const>\<open>checkRules\<close> fails.\<close>

definition rule_check_fails :: "regex_engine \<Rightarrow> descriptor \<Rightarrow> bool" where
  "rule_check_fails rx d =
     (case rules d of None \<Rightarrow> False | Some r \<Rightarrow> is_failure (checkRules rx (val d) r))"

text \<open>
  The field is marked \<^verbatim>\<open>noDuplicate\<close> and a record of the store has the field
  strictly equal to the value supplied.
\<close>

definition duplicate_exists :: "userbase \<Rightarrow> string \<Rightarrow> descriptor \<Rightarrow> bool" where
  "duplicate_exists ub key d =
     (truthy_bool (noDuplicate d)
      \<and> list_ex (\<lambda>a. getprop (heap ub a) key = JStr (val d)) (data ub))"

definition key_fails :: "regex_engine \<Rightarrow> userbase \<Rightarrow> string \<times> descriptor \<Rightarrow> bool" where
  "key_fails rx ub kd = (rule_check_fails rx (snd kd) \<or> duplicate_exists ub (fst kd) (snd kd))"

text \<open>The record that \<^const>\<open>add\<close> builds when no check fails.\<close>

definition built_user :: "descriptor jsobj \<Rightarrow> string \<Rightarrow> string \<Rightarrow> jsobject" where
  "built_user inp token uid =
     assign ''id'' (JStr uid) (assign ''token'' (JStr token)
       (fold (\<lambda>kd user. assign (fst kd) (JStr (val (snd kd))) user) inp []))"

text \<open>A sequence of calls of \<^const>\<open>add\<close>, each with its input and the generated strings.\<close>

definition add_all ::
  "regex_engine \<Rightarrow> userbase \<Rightarrow> (descriptor jsobj \<times> string \<times> string) list \<Rightarrow> userbase" where
  "add_all rx ub calls =
     fold (\<lambda>call u. case call of (inp, token, uid) \<Rightarrow> snd (add rx u (Some inp) token uid))
       calls ub"

text \<open>
  The three operations that change a store, and a sequence of them. \<open>stays\<close> says that
  the record at an address is in the store before each operation of the sequence;
  \<open>spares_id_token\<close> says that the operation is not a \<^const>\<open>modify\<close> whose patch has the
  key \<open>id\<close> or the key \<open>token\<close>.
\<close>

datatype operation =
    Add "descriptor jsobj option" string string
  | Remove "jsobject option"
  | Modify "jsobject option" "jsobject option"

fun perform :: "regex_engine \<Rightarrow> operation \<Rightarrow> userbase \<Rightarrow> userbase" where
  "perform rx (Add inp token uid) ub = snd (add rx ub inp token uid)"
| "perform rx (Remove flt) ub = snd (remove_users ub flt)"
| "perform rx (Modify fnd patch) ub = snd (modify ub fnd patch)"

fun spares_id_token :: "operation \<Rightarrow> bool" where
  "spares_id_token (Modify fnd (Some p)) = (''id'' \<notin> set (keys p) \<and> ''token'' \<notin> set (keys p))"
| "spares_id_token other = True"

fun stays :: "regex_engine \<Rightarrow> addr \<Rightarrow> operation list \<Rightarrow> userbase \<Rightarrow> bool" where
  "stays rx a [] ub = True"
| "stays rx a (op # ops) ub = (a \<in> set (data ub) \<and> stays rx a ops (perform rx op ub))"

text \<open>
  The file mirrors the records: it holds the serialization of the sequence, and no
  property of a record is \<^verbatim>\<open>undefined\<close> (such a property is not written to the file).
\<close>

definition mirrored :: "userbase \<Rightarrow> bool" where
  "mirrored ub =
     (rootFile ub \<noteq> [] \<and> disk ub = Doc (stringify (contents ub))
      \<and> list_all (list_all (\<lambda>kv. snd kv \<noteq> JUndefined)) (contents ub))"

section \<open>Example values\<close>

definition no_rules :: ruleset where
  "no_rules = \<lparr>minLength = None, maxLength = None, match = None, noSpaces = None,
                noSpecialCharacters = None, noNumbers = None, noLetters = None\<rparr>"

definition any_match :: regex_engine where
  "any_match p v = True"

text \<open>The store over a file that was not there, and a store of three records.\<close>

definition empty_store :: userbase where
  "empty_store = \<lparr>rootFile = ''db.json'', heap = alloc [], data = [], disk = Doc []\<rparr>"

definition three_users :: "jsobject list" where
  "three_users =
     [[(''name'', JStr ''ann''), (''token'', JStr ''t0''), (''id'', JStr ''i0'')],
      [(''name'', JStr ''bob''), (''token'', JStr ''t1''), (''id'', JStr ''i1'')],
      [(''name'', JStr ''ann''), (''token'', JStr ''t2''), (''id'', JStr ''i2'')]]"

definition three_store :: userbase where
  "three_store = \<lparr>rootFile = ''db.json'', heap = alloc three_users, data = [0, 1, 2],
                   disk = Doc (stringify three_users)\<rparr>"

section \<open>The validator: order of the checks\<close>











section \<open>Reading: \<open>get\<close>\<close>

lemma found_fold:
  "fold (\<lambda>key fnd. if P key then False else fnd) ks b = (b \<and> (\<forall>k \<in> set ks. \<not> P k))"
  by (induction ks arbitrary: b) auto

lemma found_iff:
  "found user inp \<longleftrightarrow> (\<forall>k \<in> set (keys inp). getprop user k = getprop inp k)"
  unfolding found_def by (simp add: found_fold)


lemma get_Some:
  "get ub (Some flt) =
     filter (\<lambda>a. \<forall>k \<in> set (keys flt). getprop (heap ub a) k = getprop flt k) (data ub)"
  by (simp add: get_def found_iff)




section \<open>Adding: failures\<close>

lemma checkRules_message_nonempty: "checkRules rx v r = Failure m \<Longrightarrow> m \<noteq> []"
  unfolding checkRules_def fail_def by (auto split: if_splits)

lemma get_single_nonempty:
  "length (get ub (Some [(key, JStr v)])) > 0
     \<longleftrightarrow> list_ex (\<lambda>a. getprop (heap ub a) key = JStr v) (data ub)"
  by (auto simp: get_Some keys_def getprop_def list_ex_iff filter_empty_conv)

lemma add_key_rule_fails:
  "rule_check_fails rx d \<Longrightarrow>
     \<exists>m. m \<noteq> [] \<and> add_key rx ub (key, d) (user, failed) = (user, Some m)"
  by (auto simp: add_key.simps rule_check_fails_def split: option.splits result.splits
        dest: checkRules_message_nonempty)

lemma add_key_duplicate:
  "\<not> rule_check_fails rx d \<Longrightarrow> duplicate_exists ub key d \<Longrightarrow>
     add_key rx ub (key, d) (user, failed)
       = (user, Some (''A user with this '' @ key @ '' already exists!''))"
  using get_single_nonempty [of ub key "val d"]
  by (auto simp: add_key.simps rule_check_fails_def duplicate_exists_def
        split: option.splits result.splits)

lemma add_key_passes:
  "\<not> key_fails rx ub (key, d) \<Longrightarrow>
     add_key rx ub (key, d) (user, failed) = (assign key (JStr (val d)) user, failed)"
  using get_single_nonempty [of ub key "val d"]
  by (auto simp: add_key.simps key_fails_def rule_check_fails_def duplicate_exists_def
        split: option.splits result.splits)

lemma add_key_failed:
  "truthy_str (snd (add_key rx ub kd st)) \<longleftrightarrow> truthy_str (snd st) \<or> key_fails rx ub kd"
proof (cases kd, cases st)
  fix key d user failed assume eq: "kd = (key, d)" "st = (user, failed)"
  show ?thesis
  proof (cases "key_fails rx ub (key, d)")
    case False
    then show ?thesis using add_key_passes [OF False] by (simp add: eq)
  next
    case True
    show ?thesis
    proof (cases "rule_check_fails rx d")
      case True
      then show ?thesis using add_key_rule_fails [OF True, of ub key user failed]
        by (auto simp: eq key_fails_def)
    next
      case False
      with True have "duplicate_exists ub key d" by (simp add: key_fails_def)
      from add_key_duplicate [OF False this] show ?thesis using True by (simp add: eq)
    qed
  qed
qed

lemma fold_add_key_failed:
  "truthy_str (snd (fold (add_key rx ub) inp st))
     \<longleftrightarrow> truthy_str (snd st) \<or> (\<exists>kd \<in> set inp. key_fails rx ub kd)"
  by (induction inp arbitrary: st) (auto simp: add_key_failed)

lemma add_fails_iff:
  "(\<exists>message. fst (add rx ub (Some inp) token uid) = Inr (Failure message))
     \<longleftrightarrow> (\<exists>kd \<in> set inp. key_fails rx ub kd)"
  using fold_add_key_failed [of rx ub inp "([], None)"]
  by (auto simp: add_def fail_def Let_def split: prod.splits)

lemma add_failure_state:
  "fst (add rx ub (Some inp) token uid) = Inr (Failure message)
     \<Longrightarrow> snd (add rx ub (Some inp) token uid) = ub"
  by (auto simp: add_def fail_def Let_def split: prod.splits if_splits)




section \<open>Adding: the duplicate check\<close>

lemma getprop_assign:
  "getprop (assign k v obj) k' = (if k' = k then v else getprop obj k')"
  by (simp add: getprop_def assign_def update_conv')



lemma fold_add_key_passes:
  "\<forall>kd \<in> set inp. \<not> key_fails rx ub kd \<Longrightarrow>
     fold (add_key rx ub) inp (user, failed)
       = (fold (\<lambda>kd user. assign (fst kd) (JStr (val (snd kd))) user) inp user, failed)"
proof (induction inp arbitrary: user)
  case Nil
  then show ?case by simp
next
  case (Cons kd inp)
  obtain key d where kd: "kd = (key, d)" by (cases kd)
  from Cons.prems have "\<not> key_fails rx ub (key, d)" by (simp add: kd)
  from add_key_passes [OF this] Cons show ?case by (simp add: kd)
qed

lemma add_success:
  "\<forall>kd \<in> set inp. \<not> key_fails rx ub kd \<Longrightarrow>
     add rx ub (Some inp) token uid =
       (Inr (Success (fresh (data ub))),
        save (ub\<lparr>heap := fun_upd (heap ub) (fresh (data ub)) (built_user inp token uid),
                 data := data ub @ [fresh (data ub)]\<rparr>))"
  by (simp add: add_def fold_add_key_passes built_user_def Let_def)

lemma add_cases:
  "(\<exists>kd \<in> set inp. key_fails rx ub kd) \<and>
     (\<exists>message. add rx ub (Some inp) token uid = (Inr (Failure message), ub))
   \<or> (\<forall>kd \<in> set inp. \<not> key_fails rx ub kd) \<and>
     add rx ub (Some inp) token uid =
       (Inr (Success (fresh (data ub))),
        save (ub\<lparr>heap := fun_upd (heap ub) (fresh (data ub)) (built_user inp token uid),
                 data := data ub @ [fresh (data ub)]\<rparr>))"
proof (cases "\<exists>kd \<in> set inp. key_fails rx ub kd")
  case True
  then obtain m where m: "fst (add rx ub (Some inp) token uid) = Inr (Failure m)"
    using add_fails_iff [of rx ub inp token uid] by blast
  from add_failure_state [OF m] m
  have "add rx ub (Some inp) token uid = (Inr (Failure m), ub)" by (simp add: prod_eq_iff)
  with True show ?thesis by blast
next
  case False
  then show ?thesis using add_success [of inp rx ub token uid] by blast
qed











section \<open>Adding: which failure is reported\<close>

text \<open>
  C5: the claim is that \<^const>\<open>add\<close> stops at the first field that fails and returns the
  message of that failure. In the code the \<^verbatim>\<open>return fail(...)\<close> of line 91 and of line
  103 leaves the callback of \<^verbatim>\<open>forEach\<close> only: the fields after it are checked as
  well, each failure overwrites \<^verbatim>\<open>failed\<close>, and line 110 returns the message of the
  last field that fails. Below, \<open>username\<close> fails first (at least 3 characters) and the
  message returned is the one of \<open>password\<close>.
\<close>

theorem add_reports_last_failure:
  "fst (add any_match empty_store
      (Some [(''username'', \<lparr>val = ''ab'', noDuplicate = None,
                             rules = Some (no_rules\<lparr>minLength := Some 3\<rparr>)\<rparr>),
             (''password'', \<lparr>val = ''abcd'', noDuplicate = None,
                             rules = Some (no_rules\<lparr>minLength := Some 8\<rparr>)\<rparr>)]) ''t1'' ''i1'')
     = Inr (Failure ''Value must be at least 8 characters long!'')"
  by (simp add: add_def add_key.simps checkRules_def no_rules_def fail_def num_text_def
        show_int_def show_nat.simps digit_def str_text_def)

section \<open>Removing\<close>

lemma indexOf_present:
  "x \<in> set xs \<Longrightarrow>
     \<exists>i. indexOf xs x = int i \<and> i < length xs \<and> take i xs @ drop (Suc i) xs = remove1 x xs"
proof (induction xs)
  case Nil
  then show ?case by simp
next
  case (Cons y ys)
  show ?case
  proof (cases "y = x")
    case True
    then show ?thesis by (intro exI [of _ 0]) simp
  next
    case False
    with Cons obtain i where "indexOf ys x = int i" "i < length ys"
      "take i ys @ drop (Suc i) ys = remove1 x ys" by auto
    with False show ?thesis by (intro exI [of _ "Suc i"]) (simp add: Let_def)
  qed
qed

lemma splice_indexOf:
  "x \<in> set xs \<Longrightarrow> array_splice xs (indexOf xs x) (Suc 0) = remove1 x xs"
  using indexOf_present [of x xs] by (auto simp: array_splice_def Let_def min_def)

lemma remove_loop:
  "\<forall>y \<in> set ys. \<not> P y \<Longrightarrow>
     fold (\<lambda>user xs. array_splice xs (indexOf xs user) 1) (filter P xs) (ys @ xs)
       = ys @ filter (\<lambda>x. \<not> P x) xs"
proof (induction xs arbitrary: ys)
  case Nil
  then show ?case by simp
next
  case (Cons x xs)
  show ?case
  proof (cases "P x")
    case True
    with Cons.prems have "x \<notin> set ys" by auto
    then have "remove1 x (ys @ x # xs) = ys @ xs" by (simp add: remove1_append)
    with True Cons.IH [OF Cons.prems] show ?thesis
      by (simp add: splice_indexOf)
  next
    case False
    with Cons.prems have "\<forall>y \<in> set (ys @ [x]). \<not> P y" by simp
    from Cons.IH [OF this] False show ?thesis by simp
  qed
qed

lemma fold_data_update:
  "fold (\<lambda>user u. u\<lparr>data := array_splice (data u) (indexOf (data u) user) (Suc 0)\<rparr>) users ub
     = ub\<lparr>data := fold (\<lambda>user xs. array_splice xs (indexOf xs user) (Suc 0)) users (data ub)\<rparr>"
  by (induction users arbitrary: ub) simp_all

lemma get_filter_set:
  "set (get ub (Some flt)) = {a \<in> set (data ub). found (heap ub a) flt}"
  by (simp add: get_def)

lemma remove_users_Some:
  "remove_users ub (Some flt) =
     (if get ub (Some flt) = [] then (Inr False, ub)
      else (Inr True, save (ub\<lparr>data := filter (\<lambda>a. \<not> found (heap ub a) flt) (data ub)\<rparr>)))"
proof -
  have "fold (\<lambda>user xs. array_splice xs (indexOf xs user) 1)
          (filter (\<lambda>a. found (heap ub a) flt) (data ub)) ([] @ data ub)
        = [] @ filter (\<lambda>a. \<not> found (heap ub a) flt) (data ub)"
    by (rule remove_loop) simp
  then show ?thesis
    by (simp add: remove_users_def Let_def fold_data_update get_def)
qed

lemma filter_not_matched:
  "filter (\<lambda>a. a \<notin> set (get ub (Some flt))) (data ub)
     = filter (\<lambda>a. \<not> found (heap ub a) flt) (data ub)"
  by (rule filter_cong) (auto simp: get_filter_set)

lemma length_not_matched:
  "length (filter (\<lambda>a. \<not> found (heap ub a) flt) (data ub))
     = length (data ub) - length (get ub (Some flt))"
  using sum_length_filter_compl [of "\<lambda>a. found (heap ub a) flt" "data ub"]
  by (simp add: get_def)

text \<open>
  C7, as amended. \<^const>\<open>remove_users\<close> throws the configuration error when its argument
  is absent (falsy), and only then: an empty object is accepted. With a filter that
  matches no record it returns \<open>false\<close> and leaves the store, the file included, as it
  was. With a filter that matches \<open>N\<close> records it returns \<open>true\<close>, takes out of
  \<^verbatim>\<open>this.data\<close> the references that \<^const>\<open>get\<close> returned, each once, whatever the values
  of the records are, so that the sequence is shorter by \<open>N\<close> and no record matches any
  more; the records themselves are not changed, and the file is written from the
  sequence that is left.
\<close>

theorem remove_users_removes_matches:
  "remove_users ub None = (Inl NoInput, ub)
   \<and> (get ub (Some flt) = [] \<longrightarrow> remove_users ub (Some flt) = (Inr False, ub))
   \<and> (get ub (Some flt) \<noteq> [] \<longrightarrow>
        (\<exists>ub'. remove_users ub (Some flt) = (Inr True, ub')
           \<and> data ub' = filter (\<lambda>a. a \<notin> set (get ub (Some flt))) (data ub)
           \<and> length (data ub') = length (data ub) - length (get ub (Some flt))
           \<and> heap ub' = heap ub
           \<and> get ub' (Some flt) = []
           \<and> disk ub' = Doc (stringify (contents ub'))))"
proof (intro conjI impI)
  show "remove_users ub None = (Inl NoInput, ub)" by (simp add: remove_users_def)
next
  assume "get ub (Some flt) = []"
  then show "remove_users ub (Some flt) = (Inr False, ub)" by (simp add: remove_users_Some)
next
  assume ne: "get ub (Some flt) \<noteq> []"
  let ?ub' = "save (ub\<lparr>data := filter (\<lambda>a. \<not> found (heap ub a) flt) (data ub)\<rparr>)"
  have "remove_users ub (Some flt) = (Inr True, ?ub')" using ne by (simp add: remove_users_Some)
  moreover have "data ?ub' = filter (\<lambda>a. a \<notin> set (get ub (Some flt))) (data ub)"
    by (simp add: save_def filter_not_matched)
  moreover have "length (data ?ub') = length (data ub) - length (get ub (Some flt))"
    by (simp add: save_def length_not_matched)
  moreover have "heap ?ub' = heap ub" by (simp add: save_def)
  moreover have "get ?ub' (Some flt) = []" by (simp add: get_def save_def)
  moreover have "disk ?ub' = Doc (stringify (contents ?ub'))" by (simp add: save_def contents_def)
  ultimately show "\<exists>ub'. remove_users ub (Some flt) = (Inr True, ub')
           \<and> data ub' = filter (\<lambda>a. a \<notin> set (get ub (Some flt))) (data ub)
           \<and> length (data ub') = length (data ub) - length (get ub (Some flt))
           \<and> heap ub' = heap ub
           \<and> get ub' (Some flt) = []
           \<and> disk ub' = Doc (stringify (contents ub'))" by blast
qed

lemma get_three: "get three_store (Some [(''name'', JStr ''ann'')]) = [0, 2]"
  by (simp add: get_def found_def keys_def getprop_def three_store_def three_users_def alloc_def)

theorem remove_users_removes_matches_witness:
  "\<exists>ub'. remove_users three_store (Some [(''name'', JStr ''ann'')]) = (Inr True, ub')
     \<and> data ub' = [1] \<and> length (data ub') = 1"
proof -
  have d: "data three_store = [0, 1, 2]" by (simp add: three_store_def)
  have "get three_store (Some [(''name'', JStr ''ann'')]) \<noteq> []" by (simp add: get_three)
  with remove_users_removes_matches [of three_store "[(''name'', JStr ''ann'')]"]
  obtain ub' where "remove_users three_store (Some [(''name'', JStr ''ann'')]) = (Inr True, ub')"
    and "data ub' = filter (\<lambda>a. a \<notin> set (get three_store (Some [(''name'', JStr ''ann'')])))
                      (data three_store)"
    by blast
  then show ?thesis by (simp add: get_three d)
qed

text \<open>
  The claim as it was stated fails for the empty object: \<^verbatim>\<open>remove({})\<close> throws nothing,
  it removes the three records and returns \<open>true\<close>.
\<close>

theorem remove_users_empty_filter_counterexample:
  "fst (remove_users three_store (Some [])) = Inr True
   \<and> data (snd (remove_users three_store (Some []))) = []"
  by (simp add: remove_users_Some get_def found_def keys_def three_store_def save_def)

section \<open>Modifying\<close>

lemma map_of_fold_assign:
  "map_of (fold (\<lambda>key u. assign key (g key) u) ks r) k
     = (if k \<in> set ks then Some (g k) else map_of r k)"
  by (induction ks arbitrary: r) (auto simp: assign_def update_conv')

lemma fold_assign_triv:
  "\<forall>k \<in> set ks. map_of r k = Some (g k) \<Longrightarrow> fold (\<lambda>key u. assign key (g key) u) ks r = r"
  by (induction ks) (auto simp: assign_def update_triv)

lemma map_of_patch_user:
  "map_of (patch_user p r) k = (if k \<in> set (keys p) then Some (getprop p k) else map_of r k)"
  unfolding patch_user_def by (rule map_of_fold_assign)

lemma getprop_patch_user:
  "getprop (patch_user p r) k = (if k \<in> set (keys p) then getprop p k else getprop r k)"
  by (simp add: getprop_def map_of_patch_user)

lemma patch_user_idem: "patch_user p (patch_user p r) = patch_user p r"
  unfolding patch_user_def
  by (rule fold_assign_triv) (simp add: map_of_fold_assign)

lemma fold_heap_update:
  "fold (\<lambda>user u. u\<lparr>heap := fun_upd (heap u) user (patch_user p (heap u user))\<rparr>) users ub
     = ub\<lparr>heap := (\<lambda>a. if a \<in> set users then patch_user p (heap ub a) else heap ub a)\<rparr>"
proof (induction users arbitrary: ub)
  case Nil
  then show ?case by simp
next
  case (Cons u users)
  let ?step = "\<lambda>user u. u\<lparr>heap := fun_upd (heap u) user (patch_user p (heap u user))\<rparr>"
  let ?ub1 = "ub\<lparr>heap := fun_upd (heap ub) u (patch_user p (heap ub u))\<rparr>"
  have "fold ?step (u # users) ub = fold ?step users ?ub1" by simp
  also have "\<dots> = ?ub1\<lparr>heap := (\<lambda>a. if a \<in> set users then patch_user p (heap ?ub1 a)
                                    else heap ?ub1 a)\<rparr>"
    by (rule Cons.IH)
  also have "\<dots> = ub\<lparr>heap := (\<lambda>a. if a \<in> set (u # users) then patch_user p (heap ub a)
                                  else heap ub a)\<rparr>"
    by (auto simp: fun_eq_iff patch_user_idem)
  finally show ?case .
qed

lemma modify_Some:
  "modify ub (Some f) (Some p) =
     (if get ub (Some f) = [] then (Inr False, ub)
      else (Inr True,
            save (ub\<lparr>heap := (\<lambda>a. if a \<in> set (get ub (Some f)) then patch_user p (heap ub a)
                                 else heap ub a)\<rparr>)))"
  by (simp add: modify_def Let_def fold_heap_update)



section \<open>The fields \<open>id\<close> and \<open>token\<close>\<close>

lemma fresh_greater: "a \<in> set xs \<Longrightarrow> a < fresh xs"
  by (induction xs) auto

lemma fresh_notin: "fresh xs \<notin> set xs"
  using fresh_greater [of "fresh xs" xs] by auto

lemma modify_heap:
  "heap (snd (modify ub fnd (Some p))) a
     = heap ub a \<or> heap (snd (modify ub fnd (Some p))) a = patch_user p (heap ub a)"
  by (cases fnd) (simp_all add: modify_def[of ub None] modify_Some save_def)

lemma modify_keeps_other_keys:
  "k \<notin> set (keys p) \<Longrightarrow>
     getprop (heap (snd (modify ub fnd (Some p))) a) k = getprop (heap ub a) k"
  using modify_heap [of ub fnd p a] by (auto simp: getprop_patch_user)

lemma remove_users_heap: "heap (snd (remove_users ub fnd)) = heap ub"
  by (cases fnd) (simp_all add: remove_users_def[of ub None] remove_users_Some save_def)

lemma add_heap_old:
  "a \<in> set (data ub) \<Longrightarrow> heap (snd (add rx ub inp token uid)) a = heap ub a"
proof (cases inp)
  case None
  then show ?thesis by (simp add: add_def)
next
  case (Some i)
  assume "a \<in> set (data ub)"
  then have "a \<noteq> fresh (data ub)" using fresh_notin [of "data ub"] by auto
  then show ?thesis using add_cases [of i rx ub token uid] by (auto simp: Some save_def)
qed

lemma built_user_id_token:
  "getprop (built_user inp token uid) ''id'' = JStr uid
   \<and> getprop (built_user inp token uid) ''token'' = JStr token"
  by (simp add: built_user_def getprop_assign)

lemma add_new_id_token:
  assumes "add rx ub (Some inp) token uid = (Inr (Success a), ub1)"
  shows "getprop (heap ub1 a) ''id'' = JStr uid \<and> getprop (heap ub1 a) ''token'' = JStr token"
  using assms add_cases [of inp rx ub token uid] by (auto simp: save_def built_user_id_token)

lemma modify_None_patch: "snd (modify ub fnd None) = ub"
  by (cases fnd) (simp_all add: modify_def)

lemma perform_keeps_id_token:
  assumes "spares_id_token op" and "b \<in> set (data ub)"
  shows "getprop (heap (perform rx op ub) b) ''id'' = getprop (heap ub b) ''id''
       \<and> getprop (heap (perform rx op ub) b) ''token'' = getprop (heap ub b) ''token''"
proof (cases op)
  case (Add inp token uid)
  with assms(2) show ?thesis by (simp add: add_heap_old)
next
  case (Remove flt)
  then show ?thesis by (simp add: remove_users_heap)
next
  case (Modify fnd patch)
  show ?thesis
  proof (cases patch)
    case None
    with Modify show ?thesis by (simp add: modify_None_patch)
  next
    case (Some p)
    with Modify assms(1) show ?thesis by (simp add: modify_keeps_other_keys)
  qed
qed

lemma sequence_keeps_id_token:
  "list_all spares_id_token ops \<Longrightarrow> stays rx b ops ub \<Longrightarrow>
     getprop (heap (fold (perform rx) ops ub) b) ''id'' = getprop (heap ub b) ''id''
     \<and> getprop (heap (fold (perform rx) ops ub) b) ''token'' = getprop (heap ub b) ''token''"
proof (induction ops arbitrary: ub)
  case Nil
  then show ?case by simp
next
  case (Cons op ops)
  from Cons.prems have "spares_id_token op" "b \<in> set (data ub)" by simp_all
  from perform_keeps_id_token [OF this, of rx] Cons.IH [of "perform rx op ub"] Cons.prems
  show ?case by simp
qed

lemma modify_data: "data (snd (modify ub fnd patch)) = data ub"
proof (cases fnd)
  case None
  then show ?thesis by (simp add: modify_def)
next
  case (Some f)
  then show ?thesis by (cases patch) (simp_all add: modify_def [of ub "Some f" None] modify_Some save_def)
qed

text \<open>
  C6, as amended. The record that \<^const>\<open>add\<close> appends has the generated strings at
  \<open>id\<close> and \<open>token\<close>. For every sequence of calls of \<^const>\<open>add\<close>, \<^const>\<open>remove_users\<close> and
  \<^const>\<open>modify\<close> in which no patch has the key \<open>id\<close> or the key \<open>token\<close>, a record that
  is in the store before each of the calls has after them the \<open>id\<close> and the \<open>token\<close>
  it had before them. (A patch that has one of the two keys overwrites it, as it does
  any other key.)
\<close>

theorem id_and_token_kept:
  "(add rx ub (Some inp) token uid = (Inr (Success a), ub1) \<longrightarrow>
      getprop (heap ub1 a) ''id'' = JStr uid \<and> getprop (heap ub1 a) ''token'' = JStr token)
   \<and> (list_all spares_id_token ops \<and> stays rx b ops ub \<longrightarrow>
        getprop (heap (fold (perform rx) ops ub) b) ''id'' = getprop (heap ub b) ''id''
        \<and> getprop (heap (fold (perform rx) ops ub) b) ''token'' = getprop (heap ub b) ''token'')"
  using add_new_id_token [of rx ub inp token uid a ub1]
    sequence_keeps_id_token [of ops rx b ub]
  by blast

theorem id_and_token_kept_witness:
  "getprop (heap (fold (perform any_match)
       [Modify (Some [(''name'', JStr ''bob'')]) (Some [(''name'', JStr ''eve'')]),
        Remove (Some [(''name'', JStr ''ann'')])] three_store) 1) ''id'' = JStr ''i1''
   \<and> getprop (heap (fold (perform any_match)
       [Modify (Some [(''name'', JStr ''bob'')]) (Some [(''name'', JStr ''eve'')]),
        Remove (Some [(''name'', JStr ''ann'')])] three_store) 1) ''token'' = JStr ''t1''"
proof -
  let ?ops = "[Modify (Some [(''name'', JStr ''bob'')]) (Some [(''name'', JStr ''eve'')]),
        Remove (Some [(''name'', JStr ''ann'')])]"
  have "list_all spares_id_token ?ops" by (simp add: keys_def)
  moreover have "stays any_match 1 ?ops three_store"
    by (simp add: modify_data) (simp add: three_store_def)
  moreover have "getprop (heap three_store 1) ''id'' = JStr ''i1''
      \<and> getprop (heap three_store 1) ''token'' = JStr ''t1''"
    by (simp add: three_store_def three_users_def alloc_def getprop_def)
  ultimately show ?thesis
    using id_and_token_kept [where ops = ?ops and rx = any_match and b = 1 and ub = three_store]
    by simp
qed

text \<open>
  The claim as it was stated fails for a patch with the key \<open>id\<close>: nothing in
  \<^const>\<open>modify\<close> sets the two fields apart, and the \<open>id\<close> of the record is overwritten.
\<close>

theorem modify_overwrites_id_counterexample:
  "getprop (heap three_store 1) ''id'' = JStr ''i1''
   \<and> getprop (heap (snd (modify three_store (Some [(''name'', JStr ''bob'')])
                           (Some [(''id'', JStr ''x'')]))) 1) ''id'' = JStr ''x''"
  by (simp add: modify_Some get_def found_def keys_def getprop_def patch_user_def assign_def
        save_def three_store_def three_users_def alloc_def)

section \<open>The empty object as a filter\<close>

lemma get_empty_filter: "get ub (Some []) = data ub"
  by (simp add: get_def found_def keys_def)

text \<open>
  C10, as amended. The empty object matches every record: \<^const>\<open>get\<close> returns the whole
  sequence. \<^const>\<open>remove_users\<close> with the empty object throws no error; on a store that
  has a record it removes every record and returns \<open>true\<close>, and on a store with no
  record it returns \<open>false\<close> and leaves the store as it was. \<^const>\<open>modify\<close> with the empty
  object as the filter throws no error and patches every record (it returns \<open>true\<close>
  when the store has a record, \<open>false\<close> when it has none).
\<close>

theorem empty_object_filter:
  "get ub (Some []) = data ub
   \<and> (data ub \<noteq> [] \<longrightarrow>
        (\<exists>ub'. remove_users ub (Some []) = (Inr True, ub') \<and> data ub' = [] \<and> disk ub' = Doc []))
   \<and> (data ub = [] \<longrightarrow> remove_users ub (Some []) = (Inr False, ub))
   \<and> (data ub \<noteq> [] \<longrightarrow>
        (\<exists>ub'. modify ub (Some []) (Some p) = (Inr True, ub') \<and> data ub' = data ub
           \<and> (\<forall>a \<in> set (data ub). heap ub' a = patch_user p (heap ub a))))
   \<and> (data ub = [] \<longrightarrow> modify ub (Some []) (Some p) = (Inr False, ub))
   \<and> (\<forall>e. fst (remove_users ub (Some [])) \<noteq> Inl e)
   \<and> (\<forall>e. fst (modify ub (Some []) (Some p)) \<noteq> Inl e)"
  by (simp add: get_empty_filter remove_users_Some modify_Some found_def keys_def save_def
        contents_def stringify_def)

theorem empty_object_filter_witness:
  "(\<exists>ub'. remove_users three_store (Some []) = (Inr True, ub') \<and> data ub' = [])
   \<and> (\<exists>ub'. modify three_store (Some []) (Some [(''role'', JStr ''admin'')]) = (Inr True, ub')
         \<and> (\<forall>a \<in> set (data three_store).
               heap ub' a = patch_user [(''role'', JStr ''admin'')] (heap three_store a)))
   \<and> remove_users empty_store (Some []) = (Inr False, empty_store)"
proof -
  have "data three_store \<noteq> []" by (simp add: three_store_def)
  moreover have "data empty_store = []" by (simp add: empty_store_def)
  ultimately show ?thesis
    using empty_object_filter [of three_store "[(''role'', JStr ''admin'')]"]
      empty_object_filter [of empty_store "[]"]
    by blast
qed

text \<open>
  The claim as it was stated fails on a store with no record: \<^verbatim>\<open>remove({})\<close> returns
  \<open>false\<close> there, by the test of line 132.
\<close>

theorem remove_users_empty_store_counterexample:
  "remove_users empty_store (Some []) = (Inr False, empty_store)"
  by (simp add: remove_users_def get_def empty_store_def)

section \<open>Saving and loading\<close>

lemma to_json_of_json: "to_json (of_json j) = Some j"
  by (cases j) simp_all

lemma of_json_defined: "of_json j \<noteq> JUndefined"
  by (cases j) simp_all

lemma of_json_to_json: "v \<noteq> JUndefined \<Longrightarrow> \<exists>j. to_json v = Some j \<and> of_json j = v"
  by (cases v) simp_all

lemma stringify_parse_object: "stringify_object (parse_object obj) = obj"
  by (induction obj) (auto simp: stringify_object_def parse_object_def to_json_of_json)

lemma parse_stringify_object:
  "list_all (\<lambda>kv. snd kv \<noteq> JUndefined) obj \<Longrightarrow> parse_object (stringify_object obj) = obj"
proof (induction obj)
  case Nil
  then show ?case by (simp add: stringify_object_def parse_object_def)
next
  case (Cons kv obj)
  obtain k v where kv: "kv = (k, v)" by (cases kv)
  with Cons.prems have "v \<noteq> JUndefined" by simp
  from of_json_to_json [OF this] obtain j where "to_json v = Some j" "of_json j = v" by blast
  with Cons show ?case
    by (simp add: kv stringify_object_def parse_object_def)
qed

lemma parse_object_defined: "list_all (\<lambda>kv. snd kv \<noteq> JUndefined) (parse_object obj)"
  by (induction obj) (auto simp: parse_object_def of_json_defined)

lemma stringify_parse: "stringify (parse d) = d"
  by (induction d) (simp_all add: stringify_def parse_def stringify_parse_object)

lemma parse_stringify:
  "list_all (list_all (\<lambda>kv. snd kv \<noteq> JUndefined)) objs \<Longrightarrow> parse (stringify objs) = objs"
  by (induction objs) (simp_all add: stringify_def parse_def parse_stringify_object)

lemma contents_alloc: "map (alloc objs) [0..<length objs] = objs"
proof -
  have "map (alloc objs) [0..<length objs] = map ((!) objs) [0..<length objs]"
    by (rule map_cong) (simp_all add: alloc_def)
  then show ?thesis by (simp add: map_nth)
qed

lemma Userbase_Doc:
  "root \<noteq> [] \<Longrightarrow>
     Userbase (Some root) (Doc d)
       = Inr \<lparr>rootFile = root, heap = alloc (parse d), data = [0..<length d], disk = Doc d\<rparr>"
  by (simp add: Userbase_def str_text_def)

lemma Userbase_contents:
  "root \<noteq> [] \<Longrightarrow>
     \<exists>ub. Userbase (Some root) (Doc d) = Inr ub \<and> contents ub = parse d"
  using contents_alloc [of "parse d"] by (simp add: Userbase_Doc contents_def parse_def)

lemma Userbase_mirrored:
  assumes "Userbase root content = Inr ub"
  shows "mirrored ub \<and> root = Some (rootFile ub)"
proof -
  from assms obtain r where r: "root = Some r" "r \<noteq> []"
    by (cases root) (auto simp: Userbase_def split: if_splits)
  from assms r obtain d where d: "Userbase (Some r) (Doc d) = Inr ub"
    by (cases content) (auto simp: Userbase_def str_text_def)
  from Userbase_contents [OF r(2), of d] d have c: "contents ub = parse d" by simp
  from d r(2) have f: "rootFile ub = r" "disk ub = Doc d" by (auto simp: Userbase_Doc)
  have "list_all (list_all (\<lambda>kv. snd kv \<noteq> JUndefined)) (parse d)"
    using parse_object_defined by (auto simp: parse_def list_all_iff)
  with c f r show ?thesis by (simp add: mirrored_def stringify_parse)
qed

lemma assign_defined:
  "v \<noteq> JUndefined \<Longrightarrow> list_all (\<lambda>kv. snd kv \<noteq> JUndefined) obj
     \<Longrightarrow> list_all (\<lambda>kv. snd kv \<noteq> JUndefined) (assign k v obj)"
  by (induction obj) (auto simp: assign_def)

lemma fold_assign_defined:
  "list_all (\<lambda>kv. snd kv \<noteq> JUndefined) obj \<Longrightarrow>
     list_all (\<lambda>kv. snd kv \<noteq> JUndefined)
       (fold (\<lambda>kd user. assign (fst kd) (JStr (val (snd kd))) user) inp obj)"
  by (induction inp arbitrary: obj) (simp_all add: assign_defined)

lemma built_user_defined: "list_all (\<lambda>kv. snd kv \<noteq> JUndefined) (built_user inp token uid)"
  unfolding built_user_def by (intro assign_defined fold_assign_defined) simp_all

lemma add_contents:
  "\<forall>kd \<in> set inp. \<not> key_fails rx ub kd \<Longrightarrow>
     contents (snd (add rx ub (Some inp) token uid)) = contents ub @ [built_user inp token uid]"
  using fresh_notin [of "data ub"]
  by (simp add: add_success save_def contents_def)

lemma add_mirrored:
  assumes "mirrored ub"
  shows "mirrored (snd (add rx ub (Some inp) token uid))"
proof (cases "\<exists>kd \<in> set inp. key_fails rx ub kd")
  case True
  with add_cases [of inp rx ub token uid] assms show ?thesis by auto
next
  case False
  then have pass: "\<forall>kd \<in> set inp. \<not> key_fails rx ub kd" by simp
  have "disk (snd (add rx ub (Some inp) token uid))
          = Doc (stringify (contents (snd (add rx ub (Some inp) token uid))))"
    by (simp add: add_success [OF pass] save_def contents_def)
  moreover have "rootFile (snd (add rx ub (Some inp) token uid)) = rootFile ub"
    by (simp add: add_success [OF pass] save_def)
  ultimately show ?thesis using assms
    by (simp add: mirrored_def add_contents [OF pass] built_user_defined)
qed

lemma add_rootFile: "rootFile (snd (add rx ub inp token uid)) = rootFile ub"
proof (cases inp)
  case None
  then show ?thesis by (simp add: add_def)
next
  case (Some i)
  with add_cases [of i rx ub token uid] show ?thesis by (auto simp: save_def)
qed

lemma add_all_mirrored:
  "mirrored ub \<Longrightarrow> mirrored (add_all rx ub calls) \<and> rootFile (add_all rx ub calls) = rootFile ub"
proof (induction calls arbitrary: ub)
  case Nil
  then show ?case by (simp add: add_all_def)
next
  case (Cons call calls)
  obtain inp token uid where call: "call = (inp, token, uid)" by (cases call)
  have step: "add_all rx ub (call # calls) = add_all rx (snd (add rx ub (Some inp) token uid)) calls"
    by (simp add: add_all_def call)
  from Cons.IH [OF add_mirrored [OF Cons.prems, of rx inp token uid]]
  show ?case by (simp add: step add_rootFile)
qed

lemma reopen:
  assumes "mirrored ub"
  shows "\<exists>ub'. Userbase (Some (rootFile ub)) (disk ub) = Inr ub' \<and> contents ub' = contents ub"
proof -
  from assms have r: "rootFile ub \<noteq> []" and d: "disk ub = Doc (stringify (contents ub))"
    and s: "list_all (list_all (\<lambda>kv. snd kv \<noteq> JUndefined)) (contents ub)"
    by (simp_all add: mirrored_def)
  from Userbase_contents [OF r, of "stringify (contents ub)"] d parse_stringify [OF s]
  show ?thesis by simp
qed

text \<open>
  C9: for a store that the constructor gave over a file, and every sequence of calls
  of \<^const>\<open>add\<close> on it (the calls that succeed append a record and save, those that fail
  change nothing), the constructor over the same path and the file as the calls left
  it succeeds, and its records are, in order and in contents, the records of the first
  store. The text of the file stands for the JSON document it denotes:
  \<^verbatim>\<open>JSON.parse\<close> of \<^verbatim>\<open>JSON.stringify\<close> is taken from the runtime.
\<close>

theorem reopened_store_has_same_records:
  "Userbase root content = Inr ub \<longrightarrow>
     (\<exists>ub'. Userbase root (disk (add_all rx ub calls)) = Inr ub'
        \<and> contents ub' = contents (add_all rx ub calls))"
proof
  assume "Userbase root content = Inr ub"
  from Userbase_mirrored [OF this] have m: "mirrored ub" and r: "root = Some (rootFile ub)"
    by simp_all
  from add_all_mirrored [OF m, of rx calls] reopen [of "add_all rx ub calls"] r
  show "\<exists>ub'. Userbase root (disk (add_all rx ub calls)) = Inr ub'
        \<and> contents ub' = contents (add_all rx ub calls)" by simp
qed

theorem reopened_store_has_same_records_witness:
  "\<exists>ub'. Userbase (Some ''db.json'')
            (disk (add_all any_match empty_store
               [([(''name'', \<lparr>val = ''bob'', noDuplicate = Some True, rules = None\<rparr>)],
                 ''t1'', ''i1'')])) = Inr ub'
     \<and> contents ub' = [[(''name'', JStr ''bob''), (''token'', JStr ''t1''), (''id'', JStr ''i1'')]]"
proof -
  have 0: "Userbase (Some ''db.json'') Missing = Inr empty_store"
    by (simp add: Userbase_def empty_store_def str_text_def parse_def)
  have 1: "contents (add_all any_match empty_store
               [([(''name'', \<lparr>val = ''bob'', noDuplicate = Some True, rules = None\<rparr>)],
                 ''t1'', ''i1'')])
        = [[(''name'', JStr ''bob''), (''token'', JStr ''t1''), (''id'', JStr ''i1'')]]"
    by (simp add: add_all_def add_def add_key.simps get_def empty_store_def assign_def
          save_def contents_def Let_def)
  from 0 reopened_store_has_same_records [of "Some ''db.json''" Missing empty_store any_match
      "[([(''name'', \<lparr>val = ''bob'', noDuplicate = Some True, rules = None\<rparr>)], ''t1'', ''i1'')]"]
  show ?thesis by (simp only: 1)
qed

end
